theory Spec2Isabelle
  imports Main "HOL-Library.AList"
begin

section \<open>The wallet store of src/store/Wallet.ts\<close>

text \<open>
  The Vuex module \<^verbatim>\<open>src/store/Wallet.ts\<close> keeps the transactions of the current
  wallet in three arrays (confirmed, unconfirmed, partial), an array of the hashes it
  has seen, a cache object and the open websocket subscriptions. The actions are
  modelled as functions that take the store state and return the new state together
  with what the action returned or threw. JavaScript values that may be
  \<^verbatim>\<open>undefined\<close> are options; an exception is the \<open>Inl\<close> of a sum.
\<close>

subsection \<open>Values\<close>

datatype error =
  Error string  \<comment> \<open>\<^verbatim>\<open>throw new Error(message)\<close>\<close>
  | TypeError   \<comment> \<open>a property read on \<^verbatim>\<open>undefined\<close>, a delete of a non-configurable property\<close>
  | TransportError string  \<comment> \<open>a rejected promise of the REST gateway\<close>

text \<open>
  \<^verbatim>\<open>transaction.transactionInfo\<close> and \<^verbatim>\<open>transaction.meta\<close> of the source: an object
  with an optional \<^verbatim>\<open>hash\<close> and a block \<^verbatim>\<open>height\<close>. ADD_TRANSACTION reads the hash
  under \<^verbatim>\<open>transactionInfo\<close>, REMOVE_TRANSACTION reads it under \<^verbatim>\<open>meta\<close>; either
  object may be missing on a given transaction.
\<close>

record transaction_info =
  hash :: "string option"
  height :: nat

record transaction =
  transactionInfo :: "transaction_info option"
  meta :: "transaction_info option"
  body :: string

text \<open>An entry of the cache: the object \<^verbatim>\<open>{hash, transaction}\<close>.\<close>

type_synonym cache_entry = "string option \<times> transaction"

text \<open>
  A websocket channel subscription and a listener. Whether \<^verbatim>\<open>unsubscribe()\<close> or
  \<^verbatim>\<open>close()\<close> throws is a property of the handle (\<open>None\<close>: it returns normally).
\<close>

record subscription =
  subscription_id :: nat
  unsubscribe_throws :: "error option"

record listener =
  listener_id :: nat
  close_throws :: "error option"

text \<open>
  The type \<^verbatim>\<open>SubscriptionType = {listener, subscriptions}\<close>. Its second field is named
  \<open>channel_subscriptions\<close> here, since the store state has a field \<^verbatim>\<open>subscriptions\<close>
  of its own.
\<close>

record subscription_type =
  listener :: listener
  channel_subscriptions :: "subscription list"

text \<open>
  The part of the store state the transaction actions use. An element of
  \<open>transactionHashes\<close> is \<open>None\<close> for a slot that holds \<^verbatim>\<open>undefined\<close> or that was
  deleted (a hole): \<^verbatim>\<open>find\<close> and \<^verbatim>\<open>===\<close> do not tell them apart. The cache is an
  object used as a dictionary: an association list in insertion order.
\<close>

record wallet_state =
  initialized :: bool
  transactionHashes :: "string option list"
  confirmedTransactions :: "transaction list"
  unconfirmedTransactions :: "transaction list"
  partialTransactions :: "transaction list"
  transactionCache :: "(string \<times> cache_entry list) list"
  subscriptions :: "subscription_type list"

definition initial_state :: wallet_state where
  "initial_state = \<lparr>initialized = False, transactionHashes = [], confirmedTransactions = [],
     unconfirmedTransactions = [], partialTransactions = [], transactionCache = [],
     subscriptions = []\<rparr>"

text \<open>What the actions do besides changing the store, in the order they do it.\<close>

datatype event =
  CacheLookup string  \<comment> \<open>\<^verbatim>\<open>cache.hasOwnProperty(cacheKey)\<close>\<close>
  | HttpRequest string string "nat option" "string option"
      \<comment> \<open>the method of AccountHttp called, the address object, the query parameters\<close>
  | FetchBlocks "nat list"  \<comment> \<open>\<^verbatim>\<open>dispatch('network/REST_FETCH_BLOCKS', blockHeights)\<close>\<close>
  | ConsoleError error  \<comment> \<open>\<^verbatim>\<open>console.error(...)\<close> in the catch block\<close>
  | Unsubscribed nat  \<comment> \<open>\<^verbatim>\<open>sub.unsubscribe()\<close> returned\<close>
  | Closed nat  \<comment> \<open>\<^verbatim>\<open>subscription.listener.close()\<close> returned\<close>
  | Dispatched string string  \<comment> \<open>an asynchronous action dispatched and not awaited\<close>

subsection \<open>JavaScript helpers\<close>

text \<open>
  \<^verbatim>\<open>String.prototype.toLowerCase\<close> on the letters A to Z. No other character has a
  lower case among the letters of the three group names that ADD_TRANSACTION accepts.
\<close>

definition toLowerCase_char :: "char \<Rightarrow> char" where
  "toLowerCase_char c =
     (case map_of (zip ''ABCDEFGHIJKLMNOPQRSTUVWXYZ'' ''abcdefghijklmnopqrstuvwxyz'') c of
        None \<Rightarrow> c
      | Some l \<Rightarrow> l)"

definition toLowerCase :: "string \<Rightarrow> string" where
  "toLowerCase = map toLowerCase_char"

text \<open>The name of a property: \<^verbatim>\<open>undefined\<close> used as a key is the string "undefined".\<close>

definition property_key :: "string option \<Rightarrow> string" where
  "property_key k = (case k of None \<Rightarrow> ''undefined'' | Some key \<Rightarrow> key)"

text \<open>
  \<^verbatim>\<open>Array.prototype.find\<close>: the first element the callback accepts, \<^verbatim>\<open>undefined\<close>
  when there is none. The result is the element, not its index.
\<close>

definition js_find :: "('a option \<Rightarrow> bool) \<Rightarrow> 'a option list \<Rightarrow> 'a option" where
  "js_find p xs = (case List.find p xs of None \<Rightarrow> None | Some x \<Rightarrow> x)"

text \<open>
  A string is an array index when it is the decimal numeral, without leading zeros, of a
  number below \<open>2^32 - 1\<close> (such a numeral has at most ten digits).
\<close>

definition is_digit :: "char \<Rightarrow> bool" where
  "is_digit c = (let n = (of_char c :: nat) in 48 \<le> n \<and> n \<le> 57)"

definition decimal :: "string \<Rightarrow> nat" where
  "decimal key = foldl (\<lambda>n c. 10 * n + (of_char c - 48)) 0 key"

definition array_index :: "string \<Rightarrow> nat option" where
  "array_index key =
     (if key \<noteq> [] \<and> list_all is_digit key \<and> (key = ''0'' \<or> hd key \<noteq> CHR ''0'')
         \<and> length key \<le> 10 \<and> decimal key < 2 ^ 32 - 1
      then Some (decimal key) else None)"

text \<open>
  \<^verbatim>\<open>delete array[key]\<close> in strict code (the file is an ES module): an index below the
  length leaves a hole there, \<^verbatim>\<open>length\<close> cannot be deleted (TypeError), and a key
  that names no element deletes nothing.
\<close>

definition js_delete :: "'a option list \<Rightarrow> string \<Rightarrow> error + 'a option list" where
  "js_delete xs key =
     (if key = ''length'' then Inl TypeError
      else (case array_index key of
              None \<Rightarrow> Inr xs
            | Some i \<Rightarrow> if i < length xs then Inr (xs[i := None]) else Inr xs))"

text \<open>\<^verbatim>\<open>base.concat(a, b, ...)\<close> on arrays: the elements of each argument, in turn.\<close>

definition js_concat :: "'a list \<Rightarrow> 'a list list \<Rightarrow> 'a list" where
  "js_concat base args = foldl (@) base args"

subsection \<open>transactionGroupToStateVariable\<close>

definition unknown_group_message :: "string \<Rightarrow> string" where
  "unknown_group_message group' =
     ''Unknown transaction group '' @ [CHR 0x27] @ group' @ [CHR 0x27] @ ''.''"

definition transactionGroupToStateVariable :: "string \<Rightarrow> error + string" where
  "transactionGroupToStateVariable group' =
     (let transactionGroup = toLowerCase group' in
      if transactionGroup = ''unconfirmed'' \<or> transactionGroup = ''confirmed''
         \<or> transactionGroup = ''partial''
      then Inr (transactionGroup @ ''Transactions'')
      else Inl (Error (unknown_group_message group')))"

text \<open>
  The payload of ADD_TRANSACTION and REMOVE_TRANSACTION: an object with an optional
  \<^verbatim>\<open>group\<close>, an optional \<^verbatim>\<open>cacheKey\<close> and a transaction. The payload itself may be
  missing (\<open>None\<close> where the actions take it).
\<close>

record transaction_message =
  group :: "string option"
  cacheKey :: "string option"
  transaction :: transaction

subsection \<open>Getters and mutations\<close>

text \<open>
  \<^verbatim>\<open>getters[name]\<close> and \<^verbatim>\<open>commit(name, transactions)\<close> for a name computed by
  \<open>transactionGroupToStateVariable\<close>. Any other name has no such getter
  (\<^verbatim>\<open>undefined\<close>) and no such mutation (the store is left as it is).
\<close>

definition getters :: "wallet_state \<Rightarrow> string \<Rightarrow> transaction list option" where
  "getters s name =
     (if name = ''confirmedTransactions'' then Some (confirmedTransactions s)
      else if name = ''unconfirmedTransactions'' then Some (unconfirmedTransactions s)
      else if name = ''partialTransactions'' then Some (partialTransactions s)
      else None)"

definition commit :: "string \<Rightarrow> transaction list \<Rightarrow> wallet_state \<Rightarrow> wallet_state" where
  "commit name transactions s =
     (if name = ''confirmedTransactions'' then s\<lparr>confirmedTransactions := transactions\<rparr>
      else if name = ''unconfirmedTransactions'' then s\<lparr>unconfirmedTransactions := transactions\<rparr>
      else if name = ''partialTransactions'' then s\<lparr>partialTransactions := transactions\<rparr>
      else s)"

text \<open>The getter \<^verbatim>\<open>allTransactions\<close>: \<^verbatim>\<open>[].concat(partial, unconfirmed, confirmed)\<close>.\<close>

definition allTransactions :: "wallet_state \<Rightarrow> transaction list" where
  "allTransactions s =
     js_concat [] [partialTransactions s, unconfirmedTransactions s, confirmedTransactions s]"

text \<open>
  The mutation \<^verbatim>\<open>addTransactionToCache\<close>. The payload is \<^verbatim>\<open>{cacheKey, hash,
  transaction}\<close>, written here as a triple; the collection of an unknown key is created
  first, then the entry is pushed onto the key's collection.
\<close>

definition addTransactionToCache ::
  "(string option \<times> string option \<times> transaction) option \<Rightarrow> wallet_state \<Rightarrow> wallet_state" where
  "addTransactionToCache payload s =
     (case payload of
        None \<Rightarrow> s
      | Some (payload_cacheKey, payload_hash, payload_transaction) \<Rightarrow>
          let key = property_key payload_cacheKey;
              cache = transactionCache s;
              entries = (case map_of cache key of None \<Rightarrow> [] | Some es \<Rightarrow> es)
          in s\<lparr>transactionCache :=
                 AList.update key (entries @ [(payload_hash, payload_transaction)]) cache\<rparr>)"

definition setInitialized :: "bool \<Rightarrow> wallet_state \<Rightarrow> wallet_state" where
  "setInitialized b s = s\<lparr>initialized := b\<rparr>"

definition setSubscriptions :: "subscription_type list \<Rightarrow> wallet_state \<Rightarrow> wallet_state" where
  "setSubscriptions subs s = s\<lparr>subscriptions := subs\<rparr>"

subsection \<open>RESET_TRANSACTIONS, ADD_TRANSACTION, REMOVE_TRANSACTION\<close>

definition RESET_TRANSACTIONS :: "wallet_state \<Rightarrow> wallet_state" where
  "RESET_TRANSACTIONS s =
     commit ''partialTransactions'' []
       (commit ''unconfirmedTransactions'' [] (commit ''confirmedTransactions'' [] s))"

definition missing_group_message :: "string \<Rightarrow> string" where
  "missing_group_message action =
     ''Missing mandatory field '' @ [CHR 0x27] @ ''group'' @ [CHR 0x27]
       @ '' for action wallet/'' @ action @ ''.''"

text \<open>
  \<^verbatim>\<open>hashes.find(hash => hash === transaction.transactionInfo.hash)\<close>: the callback runs
  once per slot, so the read of \<^verbatim>\<open>transactionInfo.hash\<close> throws only when there is a
  slot to visit.
\<close>

definition find_known_hash :: "transaction \<Rightarrow> string option list \<Rightarrow> error + string option" where
  "find_known_hash tx hashes =
     (if hashes = [] then Inr None
      else (case transactionInfo tx of
              None \<Rightarrow> Inl TypeError
            | Some info \<Rightarrow> Inr (js_find (\<lambda>h. h = hash info) hashes)))"

text \<open>
  ADD_TRANSACTION. \<^verbatim>\<open>transactions.push(transaction)\<close> and \<^verbatim>\<open>hashes.push(...)\<close> change
  the arrays of the store in place, so the transaction is in its group as soon as it is
  pushed, also when the read of its hash throws right after. The commits that follow
  store the same arrays again.
\<close>

definition ADD_TRANSACTION ::
  "wallet_state \<Rightarrow> transaction_message option \<Rightarrow> (error + unit) \<times> wallet_state" where
  "ADD_TRANSACTION s transactionMessage =
     (case transactionMessage of
        None \<Rightarrow> (Inl (Error (missing_group_message ''addTransaction'')), s)
      | Some msg \<Rightarrow>
         (case group msg of
            None \<Rightarrow> (Inl (Error (missing_group_message ''addTransaction'')), s)
          | Some g \<Rightarrow>
             if g = [] then (Inl (Error (missing_group_message ''addTransaction'')), s)
             else
              (case transactionGroupToStateVariable g of
                 Inl e \<Rightarrow> (Inl e, s)
               | Inr transactionGroup \<Rightarrow>
                  (let hashes = transactionHashes s;
                       tx = transaction msg
                   in case find_known_hash tx hashes of
                        Inl e \<Rightarrow> (Inl e, s)
                      | Inr (Some findIterator) \<Rightarrow> (Inr (), s)
                      | Inr None \<Rightarrow>
                         (case getters s transactionGroup of
                            None \<Rightarrow> (Inl TypeError, s)
                          | Some transactions \<Rightarrow>
                             (let s1 = commit transactionGroup (transactions @ [tx]) s
                              in case transactionInfo tx of
                                   None \<Rightarrow> (Inl TypeError, s1)
                                 | Some info \<Rightarrow>
                                    (let s2 = s1\<lparr>transactionHashes := hashes @ [hash info]\<rparr>
                                     in (Inr (),
                                         addTransactionToCache (Some (None, hash info, tx)) s2))))))))"

text \<open>
  \<^verbatim>\<open>transactions.find(tx => tx.meta.hash === transactionHash)\<close>: the callback throws on
  the first transaction it visits that has no \<^verbatim>\<open>meta\<close>.
\<close>

fun find_by_meta_hash :: "string option \<Rightarrow> transaction list \<Rightarrow> error + transaction option" where
  "find_by_meta_hash transactionHash [] = Inr None"
| "find_by_meta_hash transactionHash (tx # txs) =
     (case meta tx of
        None \<Rightarrow> Inl TypeError
      | Some m \<Rightarrow> if hash m = transactionHash then Inr (Some tx)
                  else find_by_meta_hash transactionHash txs)"

text \<open>
  REMOVE_TRANSACTION. Both \<^verbatim>\<open>find\<close> calls return the element found, and the element is
  what the two \<^verbatim>\<open>delete\<close> statements use as the property name.
  \<^verbatim>\<open>delete transactions[findIterator]\<close> names the property by the transaction object
  (the string "[object Object]"), which no array has, so it deletes nothing.
  \<^verbatim>\<open>delete hashes[findHashIt]\<close> names the property by the hash string.
\<close>

definition REMOVE_TRANSACTION ::
  "wallet_state \<Rightarrow> transaction_message option \<Rightarrow> (error + unit) \<times> wallet_state" where
  "REMOVE_TRANSACTION s transactionMessage =
     (case transactionMessage of
        None \<Rightarrow> (Inl (Error (missing_group_message ''removeTransaction'')), s)
      | Some msg \<Rightarrow>
         (case group msg of
            None \<Rightarrow> (Inl (Error (missing_group_message ''removeTransaction'')), s)
          | Some g \<Rightarrow>
             if g = [] then (Inl (Error (missing_group_message ''removeTransaction'')), s)
             else
              (case transactionGroupToStateVariable g of
                 Inl e \<Rightarrow> (Inl e, s)
               | Inr transactionGroup \<Rightarrow>
                  (let hashes = transactionHashes s
                   in case getters s transactionGroup of
                        None \<Rightarrow> (Inl TypeError, s)
                      | Some transactions \<Rightarrow>
                         (case meta (transaction msg) of
                            None \<Rightarrow> (Inl TypeError, s)
                          | Some m \<Rightarrow>
                             (let transactionHash = hash m;
                                  findHashIt = js_find (\<lambda>h. h = transactionHash) hashes
                              in case find_by_meta_hash transactionHash transactions of
                                   Inl e \<Rightarrow> (Inl e, s)
                                 | Inr None \<Rightarrow> (Inr (), s)
                                 | Inr (Some findIterator) \<Rightarrow>
                                    (case js_delete hashes (property_key findHashIt) of
                                       Inl e \<Rightarrow> (Inl e, s)
                                     | Inr hashes' \<Rightarrow>
                                        (Inr (),
                                         (commit transactionGroup transactions s)
                                           \<lparr>transactionHashes := hashes'\<rparr>))))))))"

subsection \<open>Websocket subscriptions: RESET_SUBSCRIPTIONS and UNSUBSCRIBE\<close>

definition RESET_SUBSCRIPTIONS :: "wallet_state \<Rightarrow> wallet_state" where
  "RESET_SUBSCRIPTIONS s = setSubscriptions [] s"

text \<open>
  \<^verbatim>\<open>subscription.subscriptions.map(sub => sub.unsubscribe())\<close>: the channels in order;
  a call that throws ends the loop with its exception.
\<close>

fun unsubscribe_channels :: "subscription list \<Rightarrow> (error + unit) \<times> event list" where
  "unsubscribe_channels [] = (Inr (), [])"
| "unsubscribe_channels (sub # subs) =
     (case unsubscribe_throws sub of
        Some e \<Rightarrow> (Inl e, [])
      | None \<Rightarrow>
         (case unsubscribe_channels subs of
            (r, events) \<Rightarrow> (r, Unsubscribed (subscription_id sub) # events)))"

text \<open>The callback of the outer \<^verbatim>\<open>map\<close>: unsubscribe the channels, then close the listener.\<close>

definition close_subscription :: "subscription_type \<Rightarrow> (error + unit) \<times> event list" where
  "close_subscription subscription =
     (case unsubscribe_channels (channel_subscriptions subscription) of
        (Inl e, events) \<Rightarrow> (Inl e, events)
      | (Inr u, events) \<Rightarrow>
         (case close_throws (listener subscription) of
            Some e \<Rightarrow> (Inl e, events)
          | None \<Rightarrow> (Inr (), events @ [Closed (listener_id (listener subscription))])))"

fun close_subscriptions :: "subscription_type list \<Rightarrow> (error + unit) \<times> event list" where
  "close_subscriptions [] = (Inr (), [])"
| "close_subscriptions (subscription # rest) =
     (case close_subscription subscription of
        (Inl e, events) \<Rightarrow> (Inl e, events)
      | (Inr u, events) \<Rightarrow>
         (case close_subscriptions rest of (r, events') \<Rightarrow> (r, events @ events')))"

text \<open>
  UNSUBSCRIBE: the loop over the registered subscriptions, then RESET_SUBSCRIPTIONS. There
  is no \<^verbatim>\<open>try\<close> in the action, so an exception of the loop leaves it before the reset.
\<close>

definition UNSUBSCRIBE :: "wallet_state \<Rightarrow> (error + unit) \<times> wallet_state \<times> event list" where
  "UNSUBSCRIBE s =
     (case close_subscriptions (subscriptions s) of
        (Inl e, events) \<Rightarrow> (Inl e, s, events)
      | (Inr u, events) \<Rightarrow> (Inr (), RESET_SUBSCRIPTIONS s, events))"

subsection \<open>initialize\<close>

text \<open>
  The callback that \<^verbatim>\<open>initialize\<close> hands to \<^verbatim>\<open>Lock.initialize\<close> (AwaitLock is not part
  of the sources at hand, so the callback is what is modelled). REST_FETCH_INFO and
  SUBSCRIBE are asynchronous and not awaited: they are recorded as dispatched.
  RESET_TRANSACTIONS and the commit run at once.
\<close>

definition initialize_callback :: "wallet_state \<Rightarrow> string option \<Rightarrow> wallet_state \<times> event list" where
  "initialize_callback s address =
     (case address of
        None \<Rightarrow> (s, [])
      | Some a \<Rightarrow>
         if a = [] then (s, [])
         else (setInitialized True (RESET_TRANSACTIONS s),
               [Dispatched ''REST_FETCH_INFO'' a, Dispatched ''SUBSCRIBE'' a]))"

subsection \<open>REST_FETCH_TRANSACTIONS\<close>

text \<open>
  What the action takes from outside the store: the current peer of the network module,
  the SDK's address parser, the three requests of AccountHttp (a rejected promise is
  \<open>Inl\<close>) and \<^verbatim>\<open>CacheKey.create\<close>, whose source is not at hand and which is therefore a
  parameter.
\<close>

record environment =
  currentPeer :: "string option"
  createFromRawAddress :: "string \<Rightarrow> error + string"
  getAccountTransactions :: "string \<Rightarrow> nat option \<Rightarrow> string option \<Rightarrow> error + transaction list"
  getAccountUnconfirmedTransactions ::
    "string \<Rightarrow> nat option \<Rightarrow> string option \<Rightarrow> error + transaction list"
  getAccountPartialTransactions ::
    "string \<Rightarrow> nat option \<Rightarrow> string option \<Rightarrow> error + transaction list"
  CacheKey_create :: "string \<Rightarrow> string \<Rightarrow> nat option \<Rightarrow> string option \<Rightarrow> string"

datatype fetch_result =
  ReturnUndefined  \<comment> \<open>\<^verbatim>\<open>return ;\<close>\<close>
  | ReturnCache "cache_entry list"  \<comment> \<open>\<^verbatim>\<open>return cache[cacheKey]\<close>\<close>
  | ReturnTransactions "transaction list"  \<comment> \<open>\<^verbatim>\<open>return transactions\<close>\<close>
  | ReturnFalse  \<comment> \<open>\<^verbatim>\<open>return false\<close>\<close>

text \<open>The first statement: a group that is not one of the three names becomes 'confirmed'.\<close>

definition normalize_group :: "string option \<Rightarrow> string" where
  "normalize_group group' =
     (case group' of
        None \<Rightarrow> ''confirmed''
      | Some g \<Rightarrow>
         if g = [] then ''confirmed''
         else if g \<in> set [''partial'', ''unconfirmed'', ''confirmed''] then g
         else ''confirmed'')"

text \<open>
  \<^verbatim>\<open>transactions.map(transaction => blockHeights.push(transaction.transactionInfo
  .height.compact()))\<close>. \<open>blockHeights\<close> is an option because the source declares the
  variable without a value: \<^verbatim>\<open>let blockHeights: number[]\<close>.
\<close>

fun record_block_heights :: "nat list option \<Rightarrow> transaction list \<Rightarrow> error + nat list option" where
  "record_block_heights blockHeights [] = Inr blockHeights"
| "record_block_heights blockHeights (tx # txs) =
     (case blockHeights of
        None \<Rightarrow> Inl TypeError
      | Some heights \<Rightarrow>
         (case transactionInfo tx of
            None \<Rightarrow> Inl TypeError
          | Some info \<Rightarrow> record_block_heights (Some (heights @ [height info])) txs))"

text \<open>
  \<^verbatim>\<open>transactions.map((transaction) => dispatch('ADD_TRANSACTION', {group, cacheKey,
  transaction}))\<close>: ADD_TRANSACTION is synchronous, so an exception it throws leaves the
  loop.
\<close>

fun add_transactions ::
  "string \<Rightarrow> string \<Rightarrow> wallet_state \<Rightarrow> transaction list \<Rightarrow> (error + unit) \<times> wallet_state" where
  "add_transactions group' key s [] = (Inr (), s)"
| "add_transactions group' key s (tx # txs) =
     (case ADD_TRANSACTION s
             (Some \<lparr>group = Some group', cacheKey = Some key, transaction = tx\<rparr>) of
        (Inl e, s') \<Rightarrow> (Inl e, s')
      | (Inr u, s') \<Rightarrow> add_transactions group' key s' txs)"

text \<open>
  The request of the \<^verbatim>\<open>try\<close> block: the branch of the group assigns \<open>transactions\<close>
  from the gateway, and the branch of 'confirmed' also records the block heights. The
  result is the pair of \<open>transactions\<close> and \<open>blockHeights\<close> after the branch
  (\<open>transactions\<close> stays undefined when no branch is taken).
\<close>

definition request_transactions ::
  "environment \<Rightarrow> string \<Rightarrow> string \<Rightarrow> nat option \<Rightarrow> string option \<Rightarrow> nat list option
     \<Rightarrow> (error + transaction list option \<times> nat list option) \<times> event list" where
  "request_transactions env group' addressObject pageSize id' blockHeights =
     (if group' = ''confirmed'' then
        (case getAccountTransactions env addressObject pageSize id' of
           Inl e \<Rightarrow> Inl e
         | Inr txs \<Rightarrow>
            (case record_block_heights blockHeights txs of
               Inl e \<Rightarrow> Inl e
             | Inr heights \<Rightarrow> Inr (Some txs, heights)),
         [HttpRequest ''getAccountTransactions'' addressObject pageSize id'])
      else if group' = ''unconfirmed'' then
        (case getAccountUnconfirmedTransactions env addressObject pageSize id' of
           Inl e \<Rightarrow> Inl e
         | Inr txs \<Rightarrow> Inr (Some txs, blockHeights),
         [HttpRequest ''getAccountUnconfirmedTransactions'' addressObject pageSize id'])
      else if group' = ''partial'' then
        (case getAccountPartialTransactions env addressObject pageSize id' of
           Inl e \<Rightarrow> Inl e
         | Inr txs \<Rightarrow> Inr (Some txs, blockHeights),
         [HttpRequest ''getAccountPartialTransactions'' addressObject pageSize id'])
      else (Inr (None, blockHeights), []))"

text \<open>
  The \<^verbatim>\<open>try\<close> block. \<open>blockHeights\<close> starts undefined (\<open>None\<close>) and nothing but
  \<^verbatim>\<open>push\<close> is ever applied to it; \<^verbatim>\<open>blockHeights.length\<close> is read after the
  transactions are stored.
\<close>

definition fetch_and_store ::
  "environment \<Rightarrow> wallet_state \<Rightarrow> string \<Rightarrow> string \<Rightarrow> nat option \<Rightarrow> string option \<Rightarrow> string
     \<Rightarrow> (error + fetch_result) \<times> wallet_state \<times> event list" where
  "fetch_and_store env s group' address pageSize id' key =
     (case currentPeer env of
        None \<Rightarrow> (Inl TypeError, s, [])
      | Some peer \<Rightarrow>
         (case createFromRawAddress env address of
            Inl e \<Rightarrow> (Inl e, s, [])
          | Inr addressObject \<Rightarrow>
             (case request_transactions env group' addressObject pageSize id' None of
                (Inl e, requested) \<Rightarrow> (Inl e, s, requested)
              | (Inr (None, heights), requested) \<Rightarrow> (Inl TypeError, s, requested)
              | (Inr (Some transactions, heights), requested) \<Rightarrow>
                 (case add_transactions group' key s transactions of
                    (Inl e, s') \<Rightarrow> (Inl e, s', requested)
                  | (Inr u, s') \<Rightarrow>
                     (case heights of
                        None \<Rightarrow> (Inl TypeError, s', requested)
                      | Some hs \<Rightarrow>
                         (Inr (ReturnTransactions transactions), s',
                          requested @ (if hs = [] then [] else [FetchBlocks hs])))))))"

text \<open>
  REST_FETCH_TRANSACTIONS with the fields of its payload \<^verbatim>\<open>{group, address, pageSize,
  id}\<close> as arguments, each of which may be missing. The action is asynchronous: \<open>Inr\<close>
  is the value its promise resolves to, \<open>Inl\<close> would be a rejection. The \<^verbatim>\<open>catch\<close>
  block logs the exception and returns \<^verbatim>\<open>false\<close>. The store is the one the action
  was dispatched on: no other action runs while the request is awaited.
\<close>

definition REST_FETCH_TRANSACTIONS ::
  "environment \<Rightarrow> wallet_state \<Rightarrow> string option \<Rightarrow> string option \<Rightarrow> nat option \<Rightarrow> string option
     \<Rightarrow> (error + fetch_result) \<times> wallet_state \<times> event list" where
  "REST_FETCH_TRANSACTIONS env s group' address pageSize id' =
     (let g = normalize_group group'
      in case address of
           None \<Rightarrow> (Inr ReturnUndefined, s, [])
         | Some a \<Rightarrow>
            if a = [] then (Inr ReturnUndefined, s, [])
            else if length a \<noteq> 40 then (Inr ReturnUndefined, s, [])
            else
             (let key = CacheKey_create env g a pageSize id';
                  cache = transactionCache s
              in case map_of cache key of
                   Some page \<Rightarrow> (Inr (ReturnCache page), s, [CacheLookup key])
                 | None \<Rightarrow>
                    (case fetch_and_store env s g a pageSize id' key of
                       (Inl e, s', events) \<Rightarrow>
                         (Inr ReturnFalse, s', CacheLookup key # events @ [ConsoleError e])
                     | (Inr r, s', events) \<Rightarrow> (Inr r, s', CacheLookup key # events))))"

subsection \<open>The hashes of the ledger\<close>

text \<open>The hash ADD_TRANSACTION files a transaction under, when it has one.\<close>

definition transaction_hash :: "transaction \<Rightarrow> string option" where
  "transaction_hash tx = (case transactionInfo tx of None \<Rightarrow> None | Some info \<Rightarrow> hash info)"

definition sequence_hashes :: "transaction list \<Rightarrow> string list" where
  "sequence_hashes txs = List.map_filter transaction_hash txs"

text \<open>The hashes of the partial, the unconfirmed and the confirmed sequence, in this order.\<close>

definition ledger_hashes :: "wallet_state \<Rightarrow> string list" where
  "ledger_hashes s =
     sequence_hashes (partialTransactions s) @ sequence_hashes (unconfirmedTransactions s)
       @ sequence_hashes (confirmedTransactions s)"

text \<open>
  The invariant of the ledger: every hash of the three sequences is in
  \<open>transactionHashes\<close>, and no hash occurs twice in the three sequences taken together.
\<close>

definition ledger_invariant :: "wallet_state \<Rightarrow> bool" where
  "ledger_invariant s =
     (set (map Some (ledger_hashes s)) \<subseteq> set (transactionHashes s)
      \<and> distinct (ledger_hashes s))"

definition entries_with_hash :: "string \<Rightarrow> wallet_state \<Rightarrow> nat" where
  "entries_with_hash h s = count_list (ledger_hashes s) h"

definition index_occurrences :: "string \<Rightarrow> wallet_state \<Rightarrow> nat" where
  "index_occurrences h s = count_list (transactionHashes s) (Some h)"

text \<open>
  A string names a property of an array when it is \<^verbatim>\<open>length\<close> or an array index. A
  transaction hash (64 hexadecimal characters) is neither.
\<close>

definition names_array_property :: "string \<Rightarrow> bool" where
  "names_array_property key = (key = ''length'' \<or> array_index key \<noteq> None)"

text \<open>\<^verbatim>\<open>transactionMessage.transaction.meta.hash\<close>, when the message has one.\<close>

definition removal_hash :: "transaction_message option \<Rightarrow> string option" where
  "removal_hash transactionMessage =
     (case transactionMessage of
        None \<Rightarrow> None
      | Some msg \<Rightarrow> (case meta (transaction msg) of None \<Rightarrow> None | Some m \<Rightarrow> hash m))"

text \<open>
  The store states reached from the initial state by the three actions that change the
  ledger, with any payload and whatever the action returns or throws.
\<close>

inductive reachable :: "wallet_state \<Rightarrow> bool" where
  reachable_initial: "reachable initial_state"
| reachable_add: "reachable s \<Longrightarrow> reachable (snd (ADD_TRANSACTION s transactionMessage))"
| reachable_remove: "reachable s \<Longrightarrow> reachable (snd (REMOVE_TRANSACTION s transactionMessage))"
| reachable_reset: "reachable s \<Longrightarrow> reachable (RESET_TRANSACTIONS s)"

subsection \<open>Closing a subscription without an exception\<close>

definition closes_normally :: "subscription_type \<Rightarrow> bool" where
  "closes_normally subscription =
     (list_all (\<lambda>sub. unsubscribe_throws sub = None) (channel_subscriptions subscription)
      \<and> close_throws (listener subscription) = None)"

text \<open>What closing one subscription does then: every channel, in order, then the listener.\<close>

definition closing_events :: "subscription_type \<Rightarrow> event list" where
  "closing_events subscription =
     map (\<lambda>sub. Unsubscribed (subscription_id sub)) (channel_subscriptions subscription)
       @ [Closed (listener_id (listener subscription))]"

subsection \<open>Values for the examples\<close>

definition hash_A :: string where
  "hash_A = ''CA978112CA1BBDCAFAC231B39A23DC4DA786EFF8147C4E72B9807785AFEE48BB''"

definition hash_B :: string where
  "hash_B = ''3E23E8160039594A33894F6564E1B1348BBD7A0088D42C4ACB73EEAED59C009D''"

definition hash_C :: string where
  "hash_C = ''2E7D2C03A9507AE265ECF5B5356885A53393A2029D241394997265A1A25AEFC6''"

text \<open>A transaction that carries its hash in both places the actions read it from.\<close>

definition transaction_of :: "string \<Rightarrow> transaction" where
  "transaction_of h =
     \<lparr>transactionInfo = Some \<lparr>hash = Some h, height = 7\<rparr>,
      meta = Some \<lparr>hash = Some h, height = 7\<rparr>, body = ''transfer''\<rparr>"

definition message_of :: "string \<Rightarrow> string \<Rightarrow> transaction_message option" where
  "message_of group' h = Some \<lparr>group = Some group', cacheKey = None, transaction = transaction_of h\<rparr>"

definition address_A :: string where
  "address_A = ''TBQXW5MEOD2GYKJ7S4FHV3NPZRUCIA6LTABCDEFG''"

function show_nat :: "nat \<Rightarrow> string" where
  "show_nat n =
     (if n < 10 then [''0123456789'' ! n]
      else show_nat (n div 10) @ [''0123456789'' ! (n mod 10)])"
  by pat_completeness auto
termination
  by (relation "measure (\<lambda>n. n)") auto

text \<open>
  A gateway that answers every request with the same page, and a key that joins the four
  fields of the query.
\<close>

definition gateway_serving :: "transaction list \<Rightarrow> environment" where
  "gateway_serving page =
     \<lparr>currentPeer = Some ''http://localhost:3000'',
      createFromRawAddress = (\<lambda>a. Inr a),
      getAccountTransactions = (\<lambda>a p i. Inr page),
      getAccountUnconfirmedTransactions = (\<lambda>a p i. Inr page),
      getAccountPartialTransactions = (\<lambda>a p i. Inr page),
      CacheKey_create =
        (\<lambda>g a p i. g @ '','' @ a @ '','' @ (case p of None \<Rightarrow> ''undefined'' | Some n \<Rightarrow> show_nat n)
           @ '','' @ property_key i)\<rparr>"

text \<open>A gateway whose requests fail.\<close>

definition gateway_failing :: environment where
  "gateway_failing =
     \<lparr>currentPeer = Some ''http://localhost:3000'',
      createFromRawAddress = (\<lambda>a. Inr a),
      getAccountTransactions = (\<lambda>a p i. Inl (TransportError ''ECONNREFUSED'')),
      getAccountUnconfirmedTransactions = (\<lambda>a p i. Inl (TransportError ''ECONNREFUSED'')),
      getAccountPartialTransactions = (\<lambda>a p i. Inl (TransportError ''ECONNREFUSED'')),
      CacheKey_create =
        (\<lambda>g a p i. g @ '','' @ a @ '','' @ (case p of None \<Rightarrow> ''undefined'' | Some n \<Rightarrow> show_nat n)
           @ '','' @ property_key i)\<rparr>"

text \<open>Two registered subscriptions; closing the listener of the first one throws.\<close>

definition registry_A :: "subscription_type list" where
  "registry_A =
     [\<lparr>listener = \<lparr>listener_id = 1, close_throws = Some (Error ''socket is closing'')\<rparr>,
       channel_subscriptions = [\<lparr>subscription_id = 11, unsubscribe_throws = None\<rparr>]\<rparr>,
      \<lparr>listener = \<lparr>listener_id = 2, close_throws = None\<rparr>,
       channel_subscriptions = [\<lparr>subscription_id = 21, unsubscribe_throws = None\<rparr>]\<rparr>]"

text \<open>
  Three registered subscriptions; the second channel of the second one throws on
  \<^verbatim>\<open>unsubscribe()\<close>.
\<close>

definition registry_B :: "subscription_type list" where
  "registry_B =
     [\<lparr>listener = \<lparr>listener_id = 1, close_throws = None\<rparr>,
       channel_subscriptions = [\<lparr>subscription_id = 11, unsubscribe_throws = None\<rparr>,
                                \<lparr>subscription_id = 12, unsubscribe_throws = None\<rparr>]\<rparr>,
      \<lparr>listener = \<lparr>listener_id = 2, close_throws = None\<rparr>,
       channel_subscriptions = [\<lparr>subscription_id = 21, unsubscribe_throws = None\<rparr>,
                                \<lparr>subscription_id = 22,
                                 unsubscribe_throws = Some (Error ''already closed'')\<rparr>]\<rparr>,
      \<lparr>listener = \<lparr>listener_id = 3, close_throws = None\<rparr>,
       channel_subscriptions = [\<lparr>subscription_id = 31, unsubscribe_throws = None\<rparr>]\<rparr>]"

text \<open>A page of three transactions.\<close>

definition page_ABC :: "transaction list" where
  "page_ABC = [transaction_of hash_A, transaction_of hash_B, transaction_of hash_C]"

text \<open>
  The store after two confirmed transactions with the hashes "5" and "0" were added and
  the one with the hash "0" was given to REMOVE_TRANSACTION.
\<close>

definition store_after_removal :: wallet_state where
  "store_after_removal =
     snd (REMOVE_TRANSACTION
       (snd (ADD_TRANSACTION (snd (ADD_TRANSACTION initial_state (message_of ''confirmed'' ''5'')))
          (message_of ''confirmed'' ''0'')))
       (message_of ''confirmed'' ''0''))"

section \<open>Properties\<close>

text \<open>The equations that evaluate the actions on a given store.\<close>

lemmas store_defs =
  ADD_TRANSACTION_def REMOVE_TRANSACTION_def RESET_TRANSACTIONS_def
  transactionGroupToStateVariable_def toLowerCase_def toLowerCase_char_def
  find_known_hash_def js_find_def getters_def commit_def addTransactionToCache_def
  property_key_def js_delete_def array_index_def initial_state_def Let_def

lemmas sample_defs = message_of_def transaction_of_def hash_A_def hash_B_def hash_C_def

lemmas fetch_defs =
  REST_FETCH_TRANSACTIONS_def fetch_and_store_def request_transactions_def normalize_group_def
  gateway_serving_def gateway_failing_def address_A_def

lemmas closing_defs = closes_normally_def closing_events_def close_subscription_def

subsection \<open>The order of allTransactions\<close>

text \<open>
  C7. In every store state, whatever the order in which the transactions came in,
  \<open>allTransactions\<close> is the partial sequence, then the unconfirmed sequence, then the
  confirmed sequence.
\<close>

theorem allTransactions_order:
  "allTransactions s
     = partialTransactions s @ unconfirmedTransactions s @ confirmedTransactions s"
  by (simp add: allTransactions_def js_concat_def)

text \<open>
  Three transactions added in the order confirmed, unconfirmed, partial come out of
  \<open>allTransactions\<close> in the order partial, unconfirmed, confirmed.
\<close>

lemma allTransactions_after_three_adds:
  "allTransactions
     (snd (ADD_TRANSACTION
        (snd (ADD_TRANSACTION (snd (ADD_TRANSACTION initial_state (message_of ''confirmed'' hash_A)))
           (message_of ''unconfirmed'' hash_B)))
        (message_of ''partial'' hash_C)))
   = [transaction_of hash_C, transaction_of hash_B, transaction_of hash_A]"
  by (simp add: allTransactions_def js_concat_def store_defs sample_defs)

subsection \<open>RESET_TRANSACTIONS\<close>

lemma RESET_TRANSACTIONS_fields:
  "partialTransactions (RESET_TRANSACTIONS s) = []"
  "unconfirmedTransactions (RESET_TRANSACTIONS s) = []"
  "confirmedTransactions (RESET_TRANSACTIONS s) = []"
  "transactionHashes (RESET_TRANSACTIONS s) = transactionHashes s"
  "transactionCache (RESET_TRANSACTIONS s) = transactionCache s"
  "subscriptions (RESET_TRANSACTIONS s) = subscriptions s"
  "initialized (RESET_TRANSACTIONS s) = initialized s"
  by (simp_all add: RESET_TRANSACTIONS_def commit_def)

text \<open>
  C3, as the code has it. After RESET_TRANSACTIONS the three sequences are empty and
  \<open>allTransactions\<close> is empty.
\<close>

theorem RESET_TRANSACTIONS_clears_ledger:
  "partialTransactions (RESET_TRANSACTIONS s) = []
   \<and> unconfirmedTransactions (RESET_TRANSACTIONS s) = []
   \<and> confirmedTransactions (RESET_TRANSACTIONS s) = []
   \<and> allTransactions (RESET_TRANSACTIONS s) = []"
  by (simp add: RESET_TRANSACTIONS_fields allTransactions_def js_concat_def)

text \<open>
  The hashes are not cleared: RESET_TRANSACTIONS commits the three sequences and nothing
  else, so the hash of a transaction that was in the confirmed sequence is still in
  \<open>transactionHashes\<close> after the reset.
\<close>

theorem RESET_TRANSACTIONS_keeps_hashes:
  "confirmedTransactions (snd (ADD_TRANSACTION initial_state (message_of ''confirmed'' hash_A)))
     = [transaction_of hash_A]
   \<and> transactionHashes
       (RESET_TRANSACTIONS (snd (ADD_TRANSACTION initial_state (message_of ''confirmed'' hash_A))))
     = [Some hash_A]"
  by (simp add: store_defs sample_defs)

subsection \<open>REST_FETCH_TRANSACTIONS and the address\<close>

text \<open>
  C10. When the address is missing or its length is not 40, REST_FETCH_TRANSACTIONS
  returns \<^verbatim>\<open>undefined\<close> at once: the store is unchanged and nothing has happened (no
  look at the cache, no request), whatever the length of the address is otherwise.
\<close>

theorem fetch_rejects_address:
  assumes "case address of None \<Rightarrow> True | Some a \<Rightarrow> length a \<noteq> 40"
  shows "REST_FETCH_TRANSACTIONS env s group' address pageSize id' = (Inr ReturnUndefined, s, [])"
  using assms by (auto simp add: REST_FETCH_TRANSACTIONS_def Let_def split: option.splits)

theorem fetch_rejects_address_witness:
  "(case Some ''TBQXW5MEOD2GYKJ7S4FHV3NPZRUCIA6LT'' of None \<Rightarrow> True | Some a \<Rightarrow> length a \<noteq> 40)
   \<and> REST_FETCH_TRANSACTIONS (gateway_serving [transaction_of hash_A]) initial_state
        (Some ''confirmed'') (Some ''TBQXW5MEOD2GYKJ7S4FHV3NPZRUCIA6LT'') (Some 10) None
      = (Inr ReturnUndefined, initial_state, [])"
  using fetch_rejects_address [of "Some ''TBQXW5MEOD2GYKJ7S4FHV3NPZRUCIA6LT''"
      "gateway_serving [transaction_of hash_A]" initial_state "Some ''confirmed''" "Some 10" None]
  by simp

subsection \<open>UNSUBSCRIBE\<close>

lemma unsubscribe_channels_normal:
  "list_all (\<lambda>sub. unsubscribe_throws sub = None) subs \<Longrightarrow>
   unsubscribe_channels subs = (Inr (), map (\<lambda>sub. Unsubscribed (subscription_id sub)) subs)"
  by (induction subs) auto

lemma unsubscribe_channels_failing:
  "\<not> list_all (\<lambda>sub. unsubscribe_throws sub = None) subs \<Longrightarrow>
   \<exists>e. fst (unsubscribe_channels subs) = Inl e"
  by (induction subs) (auto split: option.splits prod.splits)

lemma close_subscription_normal:
  "closes_normally subscription \<Longrightarrow>
   close_subscription subscription = (Inr (), closing_events subscription)"
  by (simp add: closes_normally_def close_subscription_def closing_events_def
      unsubscribe_channels_normal)

lemma close_subscription_failing:
  "\<not> closes_normally subscription \<Longrightarrow> \<exists>e. fst (close_subscription subscription) = Inl e"
  using unsubscribe_channels_failing [of "channel_subscriptions subscription"]
  by (auto simp add: closes_normally_def close_subscription_def
      split: prod.splits sum.splits option.splits)

lemma close_subscriptions_normal:
  "list_all closes_normally subs \<Longrightarrow>
   close_subscriptions subs = (Inr (), concat (map closing_events subs))"
  by (induction subs) (auto simp add: close_subscription_normal)

lemma close_subscriptions_failing:
  "list_all closes_normally before \<Longrightarrow> close_subscription failing = (Inl e, events) \<Longrightarrow>
   close_subscriptions (before @ failing # rest)
     = (Inl e, concat (map closing_events before) @ events)"
  by (induction before) (auto simp add: close_subscription_normal)

text \<open>
  C9, as the code has it. When every registered subscription closes without an exception,
  UNSUBSCRIBE unsubscribes the channels of each and closes its listener, in order, and
  empties the registry. When a subscription fails, the exception leaves UNSUBSCRIBE
  there: the subscriptions before it have been closed, of the failing one the channels
  before the failure, the subscriptions after it are not touched, and the registry is
  not reset.
\<close>

theorem UNSUBSCRIBE_stops_at_first_failure:
  "(list_all closes_normally (subscriptions s) \<longrightarrow>
      UNSUBSCRIBE s
        = (Inr (), s\<lparr>subscriptions := []\<rparr>, concat (map closing_events (subscriptions s))))
   \<and> (subscriptions s = before @ failing # rest \<and> list_all closes_normally before
        \<and> \<not> closes_normally failing \<longrightarrow>
      (\<exists>e. fst (close_subscription failing) = Inl e
         \<and> UNSUBSCRIBE s
             = (Inl e, s, concat (map closing_events before) @ snd (close_subscription failing))))"
proof (intro conjI impI)
  assume "list_all closes_normally (subscriptions s)"
  then show "UNSUBSCRIBE s
      = (Inr (), s\<lparr>subscriptions := []\<rparr>, concat (map closing_events (subscriptions s)))"
    by (simp add: UNSUBSCRIBE_def close_subscriptions_normal RESET_SUBSCRIPTIONS_def
        setSubscriptions_def)
next
  assume a: "subscriptions s = before @ failing # rest \<and> list_all closes_normally before
    \<and> \<not> closes_normally failing"
  then obtain e where e: "fst (close_subscription failing) = Inl e"
    using close_subscription_failing by blast
  then have "close_subscription failing = (Inl e, snd (close_subscription failing))"
    by (metis prod.collapse)
  with a have "close_subscriptions (subscriptions s)
      = (Inl e, concat (map closing_events before) @ snd (close_subscription failing))"
    using close_subscriptions_failing by simp
  then have "UNSUBSCRIBE s
      = (Inl e, s, concat (map closing_events before) @ snd (close_subscription failing))"
    by (simp add: UNSUBSCRIBE_def)
  with e show "\<exists>e. fst (close_subscription failing) = Inl e
         \<and> UNSUBSCRIBE s
             = (Inl e, s, concat (map closing_events before) @ snd (close_subscription failing))"
    by blast
qed

theorem UNSUBSCRIBE_stops_at_first_failure_witness:
  "list_all closes_normally (subscriptions (initial_state\<lparr>subscriptions := [hd registry_B]\<rparr>))
   \<and> UNSUBSCRIBE (initial_state\<lparr>subscriptions := [hd registry_B]\<rparr>)
      = (Inr (), initial_state, [Unsubscribed 11, Unsubscribed 12, Closed 1])
   \<and> subscriptions (initial_state\<lparr>subscriptions := registry_B\<rparr>)
      = [registry_B ! 0] @ registry_B ! 1 # [registry_B ! 2]
   \<and> list_all closes_normally [registry_B ! 0]
   \<and> \<not> closes_normally (registry_B ! 1)
   \<and> UNSUBSCRIBE (initial_state\<lparr>subscriptions := registry_B\<rparr>)
      = (Inl (Error ''already closed''), initial_state\<lparr>subscriptions := registry_B\<rparr>,
         [Unsubscribed 11, Unsubscribed 12, Closed 1, Unsubscribed 21])"
proof -
  have ok: "list_all closes_normally (subscriptions (initial_state\<lparr>subscriptions := [hd registry_B]\<rparr>))"
    by (simp add: registry_B_def closes_normally_def)
  have split: "subscriptions (initial_state\<lparr>subscriptions := registry_B\<rparr>)
      = [registry_B ! 0] @ registry_B ! 1 # [registry_B ! 2]
      \<and> list_all closes_normally [registry_B ! 0] \<and> \<not> closes_normally (registry_B ! 1)"
    by (simp add: registry_B_def closes_normally_def)
  from ok UNSUBSCRIBE_stops_at_first_failure [of "initial_state\<lparr>subscriptions := [hd registry_B]\<rparr>"]
  have normal: "UNSUBSCRIBE (initial_state\<lparr>subscriptions := [hd registry_B]\<rparr>)
      = (Inr (), initial_state, [Unsubscribed 11, Unsubscribed 12, Closed 1])"
    by (simp add: registry_B_def closing_events_def initial_state_def)
  from split UNSUBSCRIBE_stops_at_first_failure [of "initial_state\<lparr>subscriptions := registry_B\<rparr>"
      "[registry_B ! 0]" "registry_B ! 1" "[registry_B ! 2]"]
  have failing: "UNSUBSCRIBE (initial_state\<lparr>subscriptions := registry_B\<rparr>)
      = (Inl (Error ''already closed''), initial_state\<lparr>subscriptions := registry_B\<rparr>,
         [Unsubscribed 11, Unsubscribed 12, Closed 1, Unsubscribed 21])"
    by (simp add: registry_B_def closing_defs)
  from ok normal split failing show ?thesis
    by simp
qed

text \<open>
  With two registered subscriptions and a first listener whose \<^verbatim>\<open>close()\<close> throws, the
  second subscription is neither unsubscribed nor closed.
\<close>

theorem UNSUBSCRIBE_leaves_later_handles_open:
  "UNSUBSCRIBE (initial_state\<lparr>subscriptions := registry_A\<rparr>)
     = (Inl (Error ''socket is closing''), initial_state\<lparr>subscriptions := registry_A\<rparr>,
        [Unsubscribed 11])"
  by (simp add: UNSUBSCRIBE_def registry_A_def close_subscription_def)

subsection \<open>ADD_TRANSACTION, REMOVE_TRANSACTION and the hashes of the ledger\<close>

lemma js_find_eq: "js_find (\<lambda>h. h = x) xs = (if x \<in> set xs then x else None)"
  by (induction xs) (auto simp add: js_find_def)

lemma toStateVariable_cases:
  "transactionGroupToStateVariable g = Inr v \<Longrightarrow>
   v = ''unconfirmedTransactions'' \<or> v = ''confirmedTransactions'' \<or> v = ''partialTransactions''"
  by (auto simp add: transactionGroupToStateVariable_def Let_def split: if_splits)

lemma sequence_hashes_append:
  "sequence_hashes (txs @ [tx])
     = sequence_hashes txs @ (case transaction_hash tx of None \<Rightarrow> [] | Some h \<Rightarrow> [h])"
  by (simp add: sequence_hashes_def List.map_filter_def split: option.splits)

lemma one_of_three:
  assumes "v = a \<or> v = b \<or> v = c" and "P a" and "P b" and "P c"
  shows "P v"
  using assms by auto

lemma count_ledger_push:
  assumes "v = ''unconfirmedTransactions'' \<or> v = ''confirmedTransactions'' \<or> v = ''partialTransactions''"
  shows "count_list (ledger_hashes (commit v (the (getters s v) @ [tx]) s)) x
     = count_list (ledger_hashes s) x + (if transaction_hash tx = Some x then 1 else 0)"
  by (rule one_of_three [OF assms])
    (simp_all add: ledger_hashes_def commit_def getters_def sequence_hashes_append
      split: option.splits)

lemma set_ledger_push:
  assumes "v = ''unconfirmedTransactions'' \<or> v = ''confirmedTransactions'' \<or> v = ''partialTransactions''"
  shows "set (ledger_hashes (commit v (the (getters s v) @ [tx]) s))
     = set (ledger_hashes s) \<union> set_option (transaction_hash tx)"
  by (rule one_of_three [OF assms])
    (auto simp add: ledger_hashes_def commit_def getters_def sequence_hashes_append
      split: option.splits)

lemma distinct_ledger_push:
  assumes "v = ''unconfirmedTransactions'' \<or> v = ''confirmedTransactions'' \<or> v = ''partialTransactions''"
  shows "distinct (ledger_hashes (commit v (the (getters s v) @ [tx]) s))
     = (distinct (ledger_hashes s) \<and> (case transaction_hash tx of None \<Rightarrow> True | Some h \<Rightarrow> h \<notin> set (ledger_hashes s)))"
  by (rule one_of_three [OF assms])
    (auto simp add: ledger_hashes_def commit_def getters_def sequence_hashes_append
      split: option.splits)

lemma commit_hashes [simp]: "transactionHashes (commit v txs s) = transactionHashes s"
  by (simp add: commit_def)

lemma cache_ledger [simp]: "ledger_hashes (addTransactionToCache p s) = ledger_hashes s"
  by (simp add: addTransactionToCache_def ledger_hashes_def Let_def split: option.splits prod.splits)

lemma cache_index [simp]: "transactionHashes (addTransactionToCache p s) = transactionHashes s"
  by (simp add: addTransactionToCache_def Let_def split: option.splits prod.splits)

lemma index_ledger [simp]: "ledger_hashes (s\<lparr>transactionHashes := hs\<rparr>) = ledger_hashes s"
  by (simp add: ledger_hashes_def)

lemma getters_Some:
  assumes "v = ''unconfirmedTransactions'' \<or> v = ''confirmedTransactions'' \<or> v = ''partialTransactions''"
  shows "\<exists>txs. getters s v = Some txs"
  by (rule one_of_three [OF assms]) (simp_all add: getters_def)


lemma ADD_TRANSACTION_valid:
  assumes "group msg = Some g" "g \<noteq> []" "transactionGroupToStateVariable g = Inr v"
  shows "ADD_TRANSACTION s (Some msg)
     = (case transactionInfo (transaction msg) of
          None \<Rightarrow> if transactionHashes s = [] then
                    (Inl TypeError, commit v (the (getters s v) @ [transaction msg]) s)
                  else (Inl TypeError, s)
        | Some info \<Rightarrow>
            if hash info \<noteq> None \<and> hash info \<in> set (transactionHashes s) then (Inr (), s)
            else (Inr (),
                  addTransactionToCache (Some (None, hash info, transaction msg))
                    ((commit v (the (getters s v) @ [transaction msg]) s)
                       \<lparr>transactionHashes := transactionHashes s @ [hash info]\<rparr>)))"
proof -
  from assms(3) have v: "v = ''unconfirmedTransactions'' \<or> v = ''confirmedTransactions'' \<or> v = ''partialTransactions''"
    by (rule toStateVariable_cases)
  then obtain txs where txs: "getters s v = Some txs"
    using getters_Some by blast
  show ?thesis
    using assms txs
    by (auto simp add: ADD_TRANSACTION_def find_known_hash_def Let_def js_find_eq
        split: option.splits)
qed


lemma ADD_TRANSACTION_invalid:
  "group msg = None \<or> group msg = Some [] \<or> (\<exists>g e. group msg = Some g \<and> transactionGroupToStateVariable g = Inl e)
   \<Longrightarrow> snd (ADD_TRANSACTION s (Some msg)) = s"
  by (auto simp add: ADD_TRANSACTION_def split: option.splits)

lemma ledger_invariant_push:
  assumes "v = ''unconfirmedTransactions'' \<or> v = ''confirmedTransactions'' \<or> v = ''partialTransactions''"
    and "ledger_invariant s"
    and "case transaction_hash tx of None \<Rightarrow> True | Some h \<Rightarrow> Some h \<notin> set (transactionHashes s)"
  shows "ledger_invariant ((commit v (the (getters s v) @ [tx]) s)\<lparr>transactionHashes := transactionHashes s @ [transaction_hash tx]\<rparr>)"
    and "transaction_hash tx = None \<Longrightarrow> ledger_invariant (commit v (the (getters s v) @ [tx]) s)"
  using assms(2,3) set_ledger_push [OF assms(1), of s tx] distinct_ledger_push [OF assms(1), of s tx]
  by (auto simp add: ledger_invariant_def split: option.splits)

lemma ledger_invariant_ADD:
  assumes "ledger_invariant s"
  shows "ledger_invariant (snd (ADD_TRANSACTION s m))"
proof (cases m)
  case None
  with assms show ?thesis by (simp add: ADD_TRANSACTION_def)
next
  case (Some msg)
  show ?thesis
  proof (cases "\<exists>g v. group msg = Some g \<and> g \<noteq> [] \<and> transactionGroupToStateVariable g = Inr v")
    case False
    then have "snd (ADD_TRANSACTION s (Some msg)) = s"
      by (intro ADD_TRANSACTION_invalid) (metis not_None_eq sum.exhaust)
    with Some assms show ?thesis by simp
  next
    case True
    then obtain g v where g: "group msg = Some g" "g \<noteq> []" "transactionGroupToStateVariable g = Inr v"
      by blast
    from g(3) have v: "v = ''unconfirmedTransactions'' \<or> v = ''confirmedTransactions'' \<or> v = ''partialTransactions''"
      by (rule toStateVariable_cases)
    show ?thesis
    proof (cases "transactionInfo (transaction msg)")
      case None
      then have "transaction_hash (transaction msg) = None"
        by (simp add: transaction_hash_def)
      with None assms v Some show ?thesis
        by (simp add: ADD_TRANSACTION_valid [OF g] ledger_invariant_push(2))
    next
      case (Some info)
      then have h: "transaction_hash (transaction msg) = hash info"
        by (simp add: transaction_hash_def)
      show ?thesis
      proof (cases "hash info \<noteq> None \<and> hash info \<in> set (transactionHashes s)")
        case True
        with Some assms \<open>m = Some msg\<close> show ?thesis
          by (simp add: ADD_TRANSACTION_valid [OF g])
      next
        case False
        then have "case transaction_hash (transaction msg) of None \<Rightarrow> True
            | Some h \<Rightarrow> Some h \<notin> set (transactionHashes s)"
          using h by (auto split: option.splits)
        from ledger_invariant_push(1) [OF v assms this] have
          "ledger_invariant ((commit v (the (getters s v) @ [transaction msg]) s)
              \<lparr>transactionHashes := transactionHashes s @ [hash info]\<rparr>)"
          using h by simp
        then have "ledger_invariant (addTransactionToCache (Some (None, hash info, transaction msg))
            ((commit v (the (getters s v) @ [transaction msg]) s)
              \<lparr>transactionHashes := transactionHashes s @ [hash info]\<rparr>))"
          by (simp add: ledger_invariant_def)
        with False Some \<open>m = Some msg\<close> show ?thesis
          by (auto simp add: ADD_TRANSACTION_valid [OF g])
      qed
    qed
  qed
qed


lemma array_index_long: "10 < length key \<Longrightarrow> array_index key = None"
  by (simp add: array_index_def)

lemma transaction_hash_names_no_property: "length h = 64 \<Longrightarrow> \<not> names_array_property h"
  by (auto simp add: names_array_property_def array_index_long)

lemma js_delete_inert: "\<not> names_array_property key \<Longrightarrow> js_delete xs key = Inr xs"
  by (simp add: names_array_property_def js_delete_def)

lemma undefined_names_no_property: "\<not> names_array_property ''undefined''"
  by (simp add: names_array_property_def array_index_def is_digit_def)

lemma commit_same:
  "getters s v = Some txs \<Longrightarrow> commit v txs s = s"
  by (auto simp add: getters_def commit_def split: if_splits)

text \<open>REMOVE_TRANSACTION leaves the three sequences and the cache as they are.\<close>

lemma REMOVE_TRANSACTION_frame:
  "\<exists>hashes. snd (REMOVE_TRANSACTION s m) = s\<lparr>transactionHashes := hashes\<rparr>"
proof -
  have same: "\<exists>hashes. s = s\<lparr>transactionHashes := hashes\<rparr>"
    by (rule exI [of _ "transactionHashes s"]) simp
  show ?thesis
    using same
    by (auto simp add: REMOVE_TRANSACTION_def Let_def commit_same
        split: option.splits sum.splits)
qed

lemma REMOVE_TRANSACTION_inert:
  assumes "case removal_hash m of None \<Rightarrow> True | Some h \<Rightarrow> \<not> names_array_property h"
  shows "snd (REMOVE_TRANSACTION s m) = s"
proof (cases m)
  case None
  then show ?thesis by (simp add: REMOVE_TRANSACTION_def)
next
  case (Some msg)
  show ?thesis
  proof (cases "meta (transaction msg)")
    case None
    with Some show ?thesis
      by (simp add: REMOVE_TRANSACTION_def Let_def split: option.splits sum.splits)
  next
    case mi: (Some mi)
    have "\<not> names_array_property (property_key (js_find (\<lambda>h. h = hash mi) (transactionHashes s)))"
      using assms Some mi undefined_names_no_property
      by (auto simp add: removal_hash_def js_find_eq property_key_def split: option.splits)
    then have "js_delete (transactionHashes s)
        (property_key (js_find (\<lambda>h. h = hash mi) (transactionHashes s))) = Inr (transactionHashes s)"
      by (rule js_delete_inert)
    with Some mi show ?thesis
      by (simp add: REMOVE_TRANSACTION_def Let_def commit_same split: option.splits sum.splits)
  qed
qed

lemma ledger_invariant_initial: "ledger_invariant initial_state"
  by (simp add: ledger_invariant_def ledger_hashes_def sequence_hashes_def initial_state_def
      List.map_filter_def)

lemma ledger_invariant_RESET: "ledger_invariant (RESET_TRANSACTIONS s)"
  by (simp add: ledger_invariant_def ledger_hashes_def sequence_hashes_def RESET_TRANSACTIONS_def
      commit_def List.map_filter_def)

text \<open>
  ADD_TRANSACTION and RESET_TRANSACTIONS keep the invariant of the ledger
  (\<open>ledger_invariant_ADD\<close>, \<open>ledger_invariant_RESET\<close>), and so does REMOVE_TRANSACTION
  when the hash it is given names no property of an array, since it then changes nothing
  (\<open>REMOVE_TRANSACTION_inert\<close>).
\<close>

lemma ledger_invariant_REMOVE:
  assumes "ledger_invariant s"
    and "case removal_hash m of None \<Rightarrow> True | Some h \<Rightarrow> \<not> names_array_property h"
  shows "ledger_invariant (snd (REMOVE_TRANSACTION s m))"
  using assms by (simp add: REMOVE_TRANSACTION_inert)

text \<open>
  C2 at a store reached by ADD_TRANSACTION, ADD_TRANSACTION, REMOVE_TRANSACTION from the
  initial store. The two confirmed transactions have the hashes "5" and "0".
  REMOVE_TRANSACTION is given the second one: \<^verbatim>\<open>find\<close> returns the hash "0", and
  \<^verbatim>\<open>delete hashes[findHashIt]\<close> empties slot 0 of \<open>transactionHashes\<close>, which holds "5".
  Both transactions are still in the confirmed sequence, and the hash "5" is no longer
  in \<open>transactionHashes\<close>: the invariant of the ledger does not hold in this store.
\<close>

theorem REMOVE_TRANSACTION_breaks_ledger_invariant:
  "reachable store_after_removal
   \<and> confirmedTransactions store_after_removal = [transaction_of ''5'', transaction_of ''0'']
   \<and> transaction_hash (transaction_of ''5'') = Some ''5''
   \<and> transactionHashes store_after_removal = [None, Some ''0'']
   \<and> \<not> ledger_invariant store_after_removal"
proof -
  have r: "reachable store_after_removal"
    unfolding store_after_removal_def
    by (intro reachable_remove reachable_add reachable_initial)
  have c: "confirmedTransactions store_after_removal = [transaction_of ''5'', transaction_of ''0'']"
    by (simp add: store_after_removal_def store_defs message_of_def transaction_of_def
        is_digit_def decimal_def)
  have p: "partialTransactions store_after_removal = []
      \<and> unconfirmedTransactions store_after_removal = []"
    by (simp add: store_after_removal_def store_defs message_of_def transaction_of_def
        is_digit_def decimal_def)
  have t: "transaction_hash (transaction_of ''5'') = Some ''5''"
    by (simp add: transaction_hash_def transaction_of_def)
  have h: "transactionHashes store_after_removal = [None, Some ''0'']"
    by (simp add: store_after_removal_def store_defs message_of_def transaction_of_def
        is_digit_def decimal_def)
  have "ledger_hashes store_after_removal = [''5'', ''0'']"
    by (simp add: ledger_hashes_def sequence_hashes_def List.map_filter_def c p
        transaction_hash_def transaction_of_def)
  then have "\<not> ledger_invariant store_after_removal"
    by (simp add: ledger_invariant_def h)
  with r c t h show ?thesis
    by simp
qed

subsection \<open>REMOVE_TRANSACTION removes nothing\<close>

lemma REMOVE_TRANSACTION_keeps_sequences:
  "confirmedTransactions (snd (REMOVE_TRANSACTION s m)) = confirmedTransactions s
   \<and> unconfirmedTransactions (snd (REMOVE_TRANSACTION s m)) = unconfirmedTransactions s
   \<and> partialTransactions (snd (REMOVE_TRANSACTION s m)) = partialTransactions s
   \<and> transactionCache (snd (REMOVE_TRANSACTION s m)) = transactionCache s"
proof -
  obtain hashes where "snd (REMOVE_TRANSACTION s m) = s\<lparr>transactionHashes := hashes\<rparr>"
    using REMOVE_TRANSACTION_frame by blast
  then show ?thesis by simp
qed

text \<open>
  C4 at a store that holds one confirmed transaction. REMOVE_TRANSACTION finds the
  transaction and its hash, returns normally, and the store is what it was: the
  transaction is still in the confirmed sequence and its hash is still in
  \<open>transactionHashes\<close>. In no store does REMOVE_TRANSACTION take a transaction out of
  a sequence (lemma \<open>REMOVE_TRANSACTION_keeps_sequences\<close>).
\<close>

theorem REMOVE_TRANSACTION_removes_nothing:
  "REMOVE_TRANSACTION
     (snd (ADD_TRANSACTION initial_state (message_of ''confirmed'' hash_A)))
     (message_of ''confirmed'' hash_A)
   = (Inr (), snd (ADD_TRANSACTION initial_state (message_of ''confirmed'' hash_A)))
   \<and> confirmedTransactions (snd (ADD_TRANSACTION initial_state (message_of ''confirmed'' hash_A)))
     = [transaction_of hash_A]
   \<and> transactionHashes (snd (ADD_TRANSACTION initial_state (message_of ''confirmed'' hash_A)))
     = [Some hash_A]"
  by (simp add: store_defs sample_defs is_digit_def)

text \<open>
  The one case in which REMOVE_TRANSACTION changes the store: a hash that reads as an
  array index. \<^verbatim>\<open>delete hashes[findHashIt]\<close> then empties the slot with that index,
  whatever hash the slot holds. Here the hashes are "5" and "0", and removing the
  transaction with hash "0" empties slot 0, which holds "5".
\<close>

lemma REMOVE_TRANSACTION_index_hash:
  "transactionHashes
     (snd (REMOVE_TRANSACTION
        (snd (ADD_TRANSACTION (snd (ADD_TRANSACTION initial_state (message_of ''confirmed'' ''5'')))
           (message_of ''confirmed'' ''0'')))
        (message_of ''confirmed'' ''0'')))
   = [None, Some ''0'']"
  by (simp add: store_defs message_of_def transaction_of_def is_digit_def decimal_def)

subsection \<open>ADD_TRANSACTION twice\<close>

lemma count_index_append:
  "count_list (xs @ [y]) x = count_list xs x + (if x = y then 1 else 0)"
  by (induction xs) auto

text \<open>
  C6, as the code has it. Let the transaction have a hash and the message a group that
  ADD_TRANSACTION accepts. Then ADD_TRANSACTION returns normally, and a second call with
  the same message returns normally and leaves the store as the first call left it. The
  two calls leave exactly one entry with this hash in the three sequences and exactly
  one occurrence of it in \<open>transactionHashes\<close> if and only if, before the first call,
  the hash occurs as often in \<open>transactionHashes\<close> as in the three sequences, and at most
  once: the store does not know the transaction, or it holds it once and knows its hash
  once.
\<close>

theorem ADD_TRANSACTION_twice:
  assumes "group msg = Some g" and "g \<noteq> []" and "transactionGroupToStateVariable g = Inr v"
    and "transactionInfo (transaction msg) = Some info" and "hash info = Some h"
  shows "fst (ADD_TRANSACTION s (Some msg)) = Inr ()
    \<and> ADD_TRANSACTION (snd (ADD_TRANSACTION s (Some msg))) (Some msg)
        = (Inr (), snd (ADD_TRANSACTION s (Some msg)))
    \<and> ((entries_with_hash h (snd (ADD_TRANSACTION (snd (ADD_TRANSACTION s (Some msg))) (Some msg))) = 1
         \<and> index_occurrences h
             (snd (ADD_TRANSACTION (snd (ADD_TRANSACTION s (Some msg))) (Some msg))) = 1)
        = (index_occurrences h s = entries_with_hash h s \<and> entries_with_hash h s \<le> 1))"
proof -
  let ?s1 = "snd (ADD_TRANSACTION s (Some msg))"
  have v: "v = ''unconfirmedTransactions'' \<or> v = ''confirmedTransactions'' \<or> v = ''partialTransactions''"
    using assms(3) by (rule toStateVariable_cases)
  have th: "transaction_hash (transaction msg) = Some h"
    using assms(4,5) by (simp add: transaction_hash_def)
  have first: "fst (ADD_TRANSACTION s (Some msg)) = Inr ()"
    using assms(4,5) by (simp add: ADD_TRANSACTION_valid [OF assms(1-3)])
  have known: "Some h \<in> set (transactionHashes ?s1)"
    using assms(4,5) by (simp add: ADD_TRANSACTION_valid [OF assms(1-3)])
  then have second: "ADD_TRANSACTION ?s1 (Some msg) = (Inr (), ?s1)"
    using assms(4,5) by (simp add: ADD_TRANSACTION_valid [OF assms(1-3), of ?s1])
  have counts: "(entries_with_hash h ?s1 = 1 \<and> index_occurrences h ?s1 = 1)
      = (index_occurrences h s = entries_with_hash h s \<and> entries_with_hash h s \<le> 1)"
  proof (cases "Some h \<in> set (transactionHashes s)")
    case True
    then have "?s1 = s"
      using assms(4,5) by (simp add: ADD_TRANSACTION_valid [OF assms(1-3)])
    moreover have "index_occurrences h s \<noteq> 0"
      using True by (simp add: index_occurrences_def count_list_0_iff)
    ultimately show ?thesis
      by auto
  next
    case False
    then have s1: "?s1 = addTransactionToCache (Some (None, Some h, transaction msg))
        ((commit v (the (getters s v) @ [transaction msg]) s)
           \<lparr>transactionHashes := transactionHashes s @ [Some h]\<rparr>)"
      using assms(4,5) by (simp add: ADD_TRANSACTION_valid [OF assms(1-3)])
    have "index_occurrences h s = 0"
      using False by (simp add: index_occurrences_def count_list_0_iff)
    moreover have "entries_with_hash h ?s1 = entries_with_hash h s + 1"
      using th by (simp add: s1 entries_with_hash_def count_ledger_push [OF v])
    moreover have "index_occurrences h ?s1 = index_occurrences h s + 1"
      by (simp add: s1 index_occurrences_def count_index_append)
    ultimately show ?thesis
      by auto
  qed
  show ?thesis
    using first second counts by simp
qed

theorem ADD_TRANSACTION_twice_witness:
  "group \<lparr>group = Some ''confirmed'', cacheKey = None, transaction = transaction_of hash_A\<rparr>
     = Some ''confirmed''
   \<and> ''confirmed'' \<noteq> []
   \<and> transactionGroupToStateVariable ''confirmed'' = Inr ''confirmedTransactions''
   \<and> transactionInfo (transaction_of hash_A) = Some \<lparr>hash = Some hash_A, height = 7\<rparr>
   \<and> index_occurrences hash_A initial_state = entries_with_hash hash_A initial_state
   \<and> entries_with_hash hash_A initial_state \<le> 1
   \<and> entries_with_hash hash_A
        (snd (ADD_TRANSACTION (snd (ADD_TRANSACTION initial_state (message_of ''confirmed'' hash_A)))
           (message_of ''confirmed'' hash_A))) = 1
   \<and> index_occurrences hash_A
        (snd (ADD_TRANSACTION (snd (ADD_TRANSACTION initial_state (message_of ''confirmed'' hash_A)))
           (message_of ''confirmed'' hash_A))) = 1"
proof -
  have g: "group \<lparr>group = Some ''confirmed'', cacheKey = None, transaction = transaction_of hash_A\<rparr>
     = Some ''confirmed''"
    by simp
  have n: "''confirmed'' \<noteq> []"
    by simp
  have v: "transactionGroupToStateVariable ''confirmed'' = Inr ''confirmedTransactions''"
    by (simp add: transactionGroupToStateVariable_def toLowerCase_def toLowerCase_char_def)
  have i: "transactionInfo (transaction \<lparr>group = Some ''confirmed'', cacheKey = None,
      transaction = transaction_of hash_A\<rparr>) = Some \<lparr>hash = Some hash_A, height = 7\<rparr>"
    by (simp add: transaction_of_def)
  have h: "hash \<lparr>hash = Some hash_A, height = 7\<rparr> = Some hash_A"
    by simp
  have new: "index_occurrences hash_A initial_state = entries_with_hash hash_A initial_state
      \<and> entries_with_hash hash_A initial_state \<le> 1"
    by (simp add: index_occurrences_def entries_with_hash_def initial_state_def ledger_hashes_def
        sequence_hashes_def List.map_filter_def)
  have i': "transactionInfo (transaction_of hash_A) = Some \<lparr>hash = Some hash_A, height = 7\<rparr>"
    by (simp add: transaction_of_def)
  note twice = ADD_TRANSACTION_twice [OF g n v i h, of initial_state]
  from twice have "(entries_with_hash hash_A
        (snd (ADD_TRANSACTION (snd (ADD_TRANSACTION initial_state
           (Some \<lparr>group = Some ''confirmed'', cacheKey = None, transaction = transaction_of hash_A\<rparr>)))
           (Some \<lparr>group = Some ''confirmed'', cacheKey = None, transaction = transaction_of hash_A\<rparr>))) = 1
   \<and> index_occurrences hash_A
        (snd (ADD_TRANSACTION (snd (ADD_TRANSACTION initial_state
           (Some \<lparr>group = Some ''confirmed'', cacheKey = None, transaction = transaction_of hash_A\<rparr>)))
           (Some \<lparr>group = Some ''confirmed'', cacheKey = None, transaction = transaction_of hash_A\<rparr>))) = 1)
     = (index_occurrences hash_A initial_state = entries_with_hash hash_A initial_state
        \<and> entries_with_hash hash_A initial_state \<le> 1)"
    by (elim conjE)
  from this new have counts: "entries_with_hash hash_A
        (snd (ADD_TRANSACTION (snd (ADD_TRANSACTION initial_state
           (Some \<lparr>group = Some ''confirmed'', cacheKey = None, transaction = transaction_of hash_A\<rparr>)))
           (Some \<lparr>group = Some ''confirmed'', cacheKey = None, transaction = transaction_of hash_A\<rparr>))) = 1
   \<and> index_occurrences hash_A
        (snd (ADD_TRANSACTION (snd (ADD_TRANSACTION initial_state
           (Some \<lparr>group = Some ''confirmed'', cacheKey = None, transaction = transaction_of hash_A\<rparr>)))
           (Some \<lparr>group = Some ''confirmed'', cacheKey = None, transaction = transaction_of hash_A\<rparr>))) = 1"
    by (rule iffD2)
  show ?thesis
    unfolding message_of_def
    using g n v i' new counts by (intro conjI) (elim conjE, assumption)+
qed

text \<open>
  In a store that already knows the hash the transaction is not added: after
  RESET_TRANSACTIONS the hash is still known, and two calls leave no entry with it.
\<close>

theorem ADD_TRANSACTION_twice_after_reset:
  "entries_with_hash hash_A
     (snd (ADD_TRANSACTION
        (snd (ADD_TRANSACTION
           (RESET_TRANSACTIONS (snd (ADD_TRANSACTION initial_state (message_of ''confirmed'' hash_A))))
           (message_of ''confirmed'' hash_A)))
        (message_of ''confirmed'' hash_A))) = 0"
  by (simp add: store_defs sample_defs entries_with_hash_def ledger_hashes_def sequence_hashes_def
      List.map_filter_def)

subsection \<open>A missing or unknown group, a missing or empty address\<close>

lemma normalize_group_unknown:
  "g \<notin> set [''partial'', ''unconfirmed'', ''confirmed''] \<Longrightarrow>
   normalize_group (Some g) = ''confirmed''"
  by (simp add: normalize_group_def)

lemma normalize_group_confirmed: "normalize_group (Some ''confirmed'') = ''confirmed''"
  by (simp add: normalize_group_def)

lemma normalize_group_missing: "normalize_group None = ''confirmed''"
  by (simp add: normalize_group_def)

lemma fetch_depends_on_normalized_group:
  "normalize_group g1 = normalize_group g2 \<Longrightarrow>
   REST_FETCH_TRANSACTIONS env s g1 address pageSize id'
     = REST_FETCH_TRANSACTIONS env s g2 address pageSize id'"
  by (simp add: REST_FETCH_TRANSACTIONS_def)

lemma fetch_never_throws:
  "\<exists>r. fst (REST_FETCH_TRANSACTIONS env s group' address pageSize id') = Inr r"
  by (simp add: REST_FETCH_TRANSACTIONS_def Let_def split: option.splits sum.splits prod.splits)

lemma action_missing_group:
  assumes "m = None \<or> (\<exists>msg. m = Some msg \<and> (group msg = None \<or> group msg = Some []))"
  shows "ADD_TRANSACTION s m = (Inl (Error (missing_group_message ''addTransaction'')), s)"
    and "REMOVE_TRANSACTION s m = (Inl (Error (missing_group_message ''removeTransaction'')), s)"
  using assms by (auto simp add: ADD_TRANSACTION_def REMOVE_TRANSACTION_def)

lemma toStateVariable_unknown:
  assumes "toLowerCase g \<notin> set [''unconfirmed'', ''confirmed'', ''partial'']"
  shows "transactionGroupToStateVariable g = Inl (Error (unknown_group_message g))"
  using assms by (simp add: transactionGroupToStateVariable_def Let_def)

lemma action_unknown_group:
  assumes "group msg = Some g" and "g \<noteq> []"
    and "toLowerCase g \<notin> set [''unconfirmed'', ''confirmed'', ''partial'']"
  shows "ADD_TRANSACTION s (Some msg) = (Inl (Error (unknown_group_message g)), s)"
    and "REMOVE_TRANSACTION s (Some msg) = (Inl (Error (unknown_group_message g)), s)"
  using assms(1,2) toStateVariable_unknown [OF assms(3)]
  by (simp_all add: ADD_TRANSACTION_def REMOVE_TRANSACTION_def)

text \<open>
  C5, as the code has it. REST_FETCH_TRANSACTIONS treats a group that is missing or not
  one of the three names as 'confirmed', returns \<^verbatim>\<open>undefined\<close> without any effect for
  a missing or empty address, and never throws. The callback of \<open>initialize\<close> does
  nothing for a missing or empty address. ADD_TRANSACTION and REMOVE_TRANSACTION throw:
  an Error "Missing mandatory field 'group'" for a missing message or a missing or empty
  group, and an Error "Unknown transaction group" for a group that is not one of the
  three names in lower case; the store is unchanged.
\<close>

theorem validation_by_action:
  "(g \<notin> set [''partial'', ''unconfirmed'', ''confirmed''] \<longrightarrow>
      REST_FETCH_TRANSACTIONS env s (Some g) address pageSize id'
        = REST_FETCH_TRANSACTIONS env s (Some ''confirmed'') address pageSize id')
   \<and> REST_FETCH_TRANSACTIONS env s None address pageSize id'
        = REST_FETCH_TRANSACTIONS env s (Some ''confirmed'') address pageSize id'
   \<and> REST_FETCH_TRANSACTIONS env s group' None pageSize id' = (Inr ReturnUndefined, s, [])
   \<and> REST_FETCH_TRANSACTIONS env s group' (Some []) pageSize id' = (Inr ReturnUndefined, s, [])
   \<and> (\<exists>r. fst (REST_FETCH_TRANSACTIONS env s group' address pageSize id') = Inr r)
   \<and> initialize_callback s None = (s, [])
   \<and> initialize_callback s (Some []) = (s, [])
   \<and> (m = None \<or> (\<exists>msg. m = Some msg \<and> (group msg = None \<or> group msg = Some [])) \<longrightarrow>
        ADD_TRANSACTION s m = (Inl (Error (missing_group_message ''addTransaction'')), s)
        \<and> REMOVE_TRANSACTION s m = (Inl (Error (missing_group_message ''removeTransaction'')), s))
   \<and> (group msg = Some tag \<and> tag \<noteq> []
        \<and> toLowerCase tag \<notin> set [''unconfirmed'', ''confirmed'', ''partial''] \<longrightarrow>
        ADD_TRANSACTION s (Some msg) = (Inl (Error (unknown_group_message tag)), s)
        \<and> REMOVE_TRANSACTION s (Some msg) = (Inl (Error (unknown_group_message tag)), s))"
proof (intro conjI impI)
  assume "g \<notin> set [''partial'', ''unconfirmed'', ''confirmed'']"
  then have "normalize_group (Some g) = normalize_group (Some ''confirmed'')"
    by (simp add: normalize_group_unknown normalize_group_confirmed)
  then show "REST_FETCH_TRANSACTIONS env s (Some g) address pageSize id'
        = REST_FETCH_TRANSACTIONS env s (Some ''confirmed'') address pageSize id'"
    by (rule fetch_depends_on_normalized_group)
next
  have "normalize_group None = normalize_group (Some ''confirmed'')"
    by (simp add: normalize_group_missing normalize_group_confirmed)
  then show "REST_FETCH_TRANSACTIONS env s None address pageSize id'
        = REST_FETCH_TRANSACTIONS env s (Some ''confirmed'') address pageSize id'"
    by (rule fetch_depends_on_normalized_group)
next
  show "REST_FETCH_TRANSACTIONS env s group' None pageSize id' = (Inr ReturnUndefined, s, [])"
    by (simp add: REST_FETCH_TRANSACTIONS_def)
next
  show "REST_FETCH_TRANSACTIONS env s group' (Some []) pageSize id' = (Inr ReturnUndefined, s, [])"
    by (simp add: REST_FETCH_TRANSACTIONS_def)
next
  show "\<exists>r. fst (REST_FETCH_TRANSACTIONS env s group' address pageSize id') = Inr r"
    by (rule fetch_never_throws)
next
  show "initialize_callback s None = (s, [])"
    by (simp add: initialize_callback_def)
next
  show "initialize_callback s (Some []) = (s, [])"
    by (simp add: initialize_callback_def)
next
  assume "m = None \<or> (\<exists>msg. m = Some msg \<and> (group msg = None \<or> group msg = Some []))"
  then show "ADD_TRANSACTION s m = (Inl (Error (missing_group_message ''addTransaction'')), s)"
    by (rule action_missing_group(1))
next
  assume "m = None \<or> (\<exists>msg. m = Some msg \<and> (group msg = None \<or> group msg = Some []))"
  then show "REMOVE_TRANSACTION s m = (Inl (Error (missing_group_message ''removeTransaction'')), s)"
    by (rule action_missing_group(2))
next
  assume a: "group msg = Some tag \<and> tag \<noteq> []
        \<and> toLowerCase tag \<notin> set [''unconfirmed'', ''confirmed'', ''partial'']"
  then show "ADD_TRANSACTION s (Some msg) = (Inl (Error (unknown_group_message tag)), s)"
    using action_unknown_group(1) by blast
next
  assume a: "group msg = Some tag \<and> tag \<noteq> []
        \<and> toLowerCase tag \<notin> set [''unconfirmed'', ''confirmed'', ''partial'']"
  then show "REMOVE_TRANSACTION s (Some msg) = (Inl (Error (unknown_group_message tag)), s)"
    using action_unknown_group(2) by blast
qed

theorem validation_by_action_witness:
  "''bogus'' \<notin> set [''partial'', ''unconfirmed'', ''confirmed'']
   \<and> REST_FETCH_TRANSACTIONS gateway_failing initial_state (Some ''bogus'') (Some address_A)
        (Some 10) None
      = REST_FETCH_TRANSACTIONS gateway_failing initial_state (Some ''confirmed'') (Some address_A)
        (Some 10) None
   \<and> REMOVE_TRANSACTION initial_state None
      = (Inl (Error (missing_group_message ''removeTransaction'')), initial_state)
   \<and> group \<lparr>group = Some ''Bogus'', cacheKey = None, transaction = transaction_of hash_A\<rparr>
      = Some ''Bogus''
   \<and> ''Bogus'' \<noteq> []
   \<and> toLowerCase ''Bogus'' \<notin> set [''unconfirmed'', ''confirmed'', ''partial'']
   \<and> ADD_TRANSACTION initial_state (message_of ''Bogus'' hash_A)
      = (Inl (Error (unknown_group_message ''Bogus'')), initial_state)"
proof -
  note v = validation_by_action [of "''bogus''" gateway_failing initial_state "Some address_A"
      "Some 10" None "Some ''bogus''" None
      "\<lparr>group = Some ''Bogus'', cacheKey = None, transaction = transaction_of hash_A\<rparr>" "''Bogus''"]
  have p1: "''bogus'' \<notin> set [''partial'', ''unconfirmed'', ''confirmed'']"
    by simp
  have p2: "(None :: transaction_message option) = None
      \<or> (\<exists>msg. (None :: transaction_message option) = Some msg
            \<and> (group msg = None \<or> group msg = Some []))"
    by simp
  have p3: "group \<lparr>group = Some ''Bogus'', cacheKey = None, transaction = transaction_of hash_A\<rparr>
      = Some ''Bogus'' \<and> ''Bogus'' \<noteq> []
      \<and> toLowerCase ''Bogus'' \<notin> set [''unconfirmed'', ''confirmed'', ''partial'']"
    by (simp add: toLowerCase_def toLowerCase_char_def)
  from v p1 have c1: "REST_FETCH_TRANSACTIONS gateway_failing initial_state (Some ''bogus'')
        (Some address_A) (Some 10) None
      = REST_FETCH_TRANSACTIONS gateway_failing initial_state (Some ''confirmed'') (Some address_A)
        (Some 10) None"
    by simp
  from v p2 have c2: "REMOVE_TRANSACTION initial_state None
      = (Inl (Error (missing_group_message ''removeTransaction'')), initial_state)"
    by simp
  from v p3 have c3: "ADD_TRANSACTION initial_state
        (Some \<lparr>group = Some ''Bogus'', cacheKey = None, transaction = transaction_of hash_A\<rparr>)
      = (Inl (Error (unknown_group_message ''Bogus'')), initial_state)"
    by simp
  show ?thesis
    unfolding message_of_def using p1 p3 c1 c2 c3 by simp
qed

text \<open>ADD_TRANSACTION throws on the group 'bogus'.\<close>

theorem ADD_TRANSACTION_unknown_group_throws:
  "ADD_TRANSACTION initial_state (message_of ''bogus'' hash_A)
     = (Inl (Error (unknown_group_message ''bogus'')), initial_state)"
  by (simp add: ADD_TRANSACTION_def message_of_def transactionGroupToStateVariable_def
      toLowerCase_def toLowerCase_char_def)

subsection \<open>REST_FETCH_TRANSACTIONS on a cache miss\<close>

lemma record_block_heights_undefined:
  "record_block_heights None txs = (if txs = [] then Inr None else Inl TypeError)"
  by (cases txs) simp_all

lemma request_heights_undefined:
  "request_transactions env g addressObject pageSize id' None = (Inr (txs, heights), requested)
   \<Longrightarrow> heights = None"
  by (auto simp add: request_transactions_def record_block_heights_undefined
      split: if_splits sum.splits)

lemma fetch_and_store_throws:
  "\<exists>e. fst (fetch_and_store env s g a pageSize id' key) = Inl e"
proof (cases "currentPeer env")
  case None
  then show ?thesis by (simp add: fetch_and_store_def)
next
  case peer: (Some peer)
  show ?thesis
  proof (cases "createFromRawAddress env a")
    case (Inl e)
    with peer show ?thesis by (simp add: fetch_and_store_def)
  next
    case (Inr addressObject)
    obtain r requested where r: "request_transactions env g addressObject pageSize id' None = (r, requested)"
      by (cases "request_transactions env g addressObject pageSize id' None")
    show ?thesis
    proof (cases r)
      case (Inl e)
      with peer Inr r show ?thesis by (simp add: fetch_and_store_def)
    next
      case page: (Inr page)
      obtain txs heights where p: "page = (txs, heights)"
        by (cases page)
      with r page have "heights = None"
        using request_heights_undefined by blast
      with peer Inr r page p show ?thesis
        by (simp add: fetch_and_store_def split: option.splits prod.splits sum.splits)
    qed
  qed
qed

lemma fetch_false_on_miss:
  assumes "address = Some a" and "length a = 40"
    and "map_of (transactionCache s) (CacheKey_create env (normalize_group group') a pageSize id') = None"
  shows "fst (REST_FETCH_TRANSACTIONS env s group' address pageSize id') = Inr ReturnFalse"
proof -
  from assms(2) have "a \<noteq> []" by auto
  moreover obtain e where "fst (fetch_and_store env s (normalize_group group') a pageSize id'
      (CacheKey_create env (normalize_group group') a pageSize id')) = Inl e"
    using fetch_and_store_throws by blast
  ultimately show ?thesis
    using assms by (auto simp add: REST_FETCH_TRANSACTIONS_def Let_def split: prod.splits sum.splits)
qed

text \<open>
  C1 at two calls whose request succeeds: the gateway answers the query for the confirmed
  group with an empty page, and the query for the unconfirmed group with a page of one
  transaction. Both calls return \<^verbatim>\<open>false\<close> after logging a TypeError, not the page:
  \<^verbatim>\<open>blockHeights\<close> is never given a value, so \<^verbatim>\<open>blockHeights.length\<close> throws in the
  \<^verbatim>\<open>try\<close> block (lemma \<open>fetch_false_on_miss\<close>: so does every call that misses the cache).
\<close>

theorem fetch_returns_false_for_a_page:
  "REST_FETCH_TRANSACTIONS (gateway_serving []) initial_state (Some ''confirmed'') (Some address_A)
     (Some 10) None
   = (Inr ReturnFalse, initial_state,
      [CacheLookup ''confirmed,TBQXW5MEOD2GYKJ7S4FHV3NPZRUCIA6LTABCDEFG,10,undefined'',
       HttpRequest ''getAccountTransactions'' address_A (Some 10) None,
       ConsoleError TypeError])
   \<and> fst (REST_FETCH_TRANSACTIONS (gateway_serving [transaction_of hash_A]) initial_state
        (Some ''unconfirmed'') (Some address_A) (Some 10) None)
     = Inr ReturnFalse
   \<and> snd (snd (REST_FETCH_TRANSACTIONS (gateway_serving [transaction_of hash_A]) initial_state
        (Some ''unconfirmed'') (Some address_A) (Some 10) None))
     = [CacheLookup ''unconfirmed,TBQXW5MEOD2GYKJ7S4FHV3NPZRUCIA6LTABCDEFG,10,undefined'',
        HttpRequest ''getAccountUnconfirmedTransactions'' address_A (Some 10) None,
        ConsoleError TypeError]"
  by (simp add: fetch_defs store_defs sample_defs)

subsection \<open>REST_FETCH_TRANSACTIONS a second time\<close>

lemma commit_cache [simp]: "transactionCache (commit v txs s) = transactionCache s"
  by (simp add: commit_def)

lemma addTransactionToCache_other_key:
  "k \<noteq> ''undefined'' \<Longrightarrow>
   map_of (transactionCache (addTransactionToCache (Some (None, h, tx)) s)) k
     = map_of (transactionCache s) k"
  by (simp add: addTransactionToCache_def property_key_def Let_def update_conv')

lemma ADD_TRANSACTION_other_key:
  assumes "k \<noteq> ''undefined''"
  shows "map_of (transactionCache (snd (ADD_TRANSACTION s m))) k = map_of (transactionCache s) k"
proof (cases m)
  case None
  then show ?thesis by (simp add: ADD_TRANSACTION_def)
next
  case (Some msg)
  show ?thesis
  proof (cases "\<exists>g v. group msg = Some g \<and> g \<noteq> [] \<and> transactionGroupToStateVariable g = Inr v")
    case False
    then have "snd (ADD_TRANSACTION s (Some msg)) = s"
      by (intro ADD_TRANSACTION_invalid) (metis not_None_eq sum.exhaust)
    with Some show ?thesis by simp
  next
    case True
    then obtain g v where g: "group msg = Some g" "g \<noteq> []" "transactionGroupToStateVariable g = Inr v"
      by blast
    show ?thesis
      using Some assms
      by (simp add: ADD_TRANSACTION_valid [OF g] addTransactionToCache_other_key
          split: option.splits)
  qed
qed

lemma add_transactions_other_key:
  "k \<noteq> ''undefined'' \<Longrightarrow>
   map_of (transactionCache (snd (add_transactions g key s txs))) k = map_of (transactionCache s) k"
proof (induction txs arbitrary: s)
  case Nil
  then show ?case by simp
next
  case (Cons tx txs)
  let ?m = "Some \<lparr>group = Some g, cacheKey = Some key, transaction = tx\<rparr>"
  have step: "map_of (transactionCache (snd (ADD_TRANSACTION s ?m))) k = map_of (transactionCache s) k"
    using Cons.prems by (rule ADD_TRANSACTION_other_key)
  show ?case
  proof (cases "ADD_TRANSACTION s ?m")
    case (Pair r s')
    with step Cons show ?thesis
      by (cases r) simp_all
  qed
qed

lemma fetch_and_store_other_key:
  assumes "k \<noteq> ''undefined''"
  shows "map_of (transactionCache (fst (snd (fetch_and_store env s g a pageSize id' key)))) k
     = map_of (transactionCache s) k"
proof -
  have stored: "map_of (transactionCache s') k = map_of (transactionCache s) k"
    if "add_transactions g key s txs = (r, s')" for txs r s'
    using add_transactions_other_key [OF assms, of g key s txs] that by simp
  show ?thesis
    by (simp add: fetch_and_store_def stored split: option.splits sum.splits prod.splits)
qed

text \<open>A query that is not in the cache is not in the cache after the call either.\<close>

lemma fetch_leaves_query_uncached:
  assumes "k \<noteq> ''undefined''"
  shows "map_of (transactionCache (fst (snd (REST_FETCH_TRANSACTIONS env s group' address pageSize id')))) k
     = map_of (transactionCache s) k"
proof -
  have stored: "map_of (transactionCache s') k = map_of (transactionCache s) k"
    if "fetch_and_store env s g a pageSize id' key = (r, s', events)" for g a key r s' events
    using fetch_and_store_other_key [OF assms, of env s g a pageSize id' key] that by simp
  show ?thesis
    by (simp add: REST_FETCH_TRANSACTIONS_def Let_def stored
        split: option.splits sum.splits prod.splits)
qed

text \<open>
  A query that is in the cache is answered from the cache, without a request and without
  a change of the store.
\<close>

lemma fetch_hit_short_circuits:
  assumes "length a = 40"
    and "map_of (transactionCache s) (CacheKey_create env (normalize_group group') a pageSize id')
      = Some page"
  shows "REST_FETCH_TRANSACTIONS env s group' (Some a) pageSize id'
     = (Inr (ReturnCache page), s,
        [CacheLookup (CacheKey_create env (normalize_group group') a pageSize id')])"
proof -
  from assms(1) have "a \<noteq> []" by auto
  with assms show ?thesis
    by (simp add: REST_FETCH_TRANSACTIONS_def)
qed

text \<open>
  C8 at the query (confirmed, address, 10, no id) on the initial store, with a gateway
  that serves a page of three transactions. The first call returns \<^verbatim>\<open>false\<close>, and the
  second call with the same arguments misses the cache and sends the request again.
\<close>

theorem second_fetch_requests_again:
  "fst (REST_FETCH_TRANSACTIONS (gateway_serving page_ABC) initial_state (Some ''confirmed'')
          (Some address_A) (Some 10) None)
     = Inr ReturnFalse
   \<and> REST_FETCH_TRANSACTIONS (gateway_serving page_ABC)
        (fst (snd (REST_FETCH_TRANSACTIONS (gateway_serving page_ABC) initial_state
           (Some ''confirmed'') (Some address_A) (Some 10) None)))
        (Some ''confirmed'') (Some address_A) (Some 10) None
     = (Inr ReturnFalse, initial_state,
        [CacheLookup ''confirmed,TBQXW5MEOD2GYKJ7S4FHV3NPZRUCIA6LTABCDEFG,10,undefined'',
         HttpRequest ''getAccountTransactions'' address_A (Some 10) None,
         ConsoleError TypeError])"
  by (simp add: fetch_defs store_defs sample_defs page_ABC_def)

text \<open>
  The same for the unconfirmed group, where the first call stores the three transactions:
  ADD_TRANSACTION files them in the cache under the key "undefined", not under the key
  of the query, so the second call misses the cache again.
\<close>

theorem second_fetch_requests_again_unconfirmed:
  "fst (REST_FETCH_TRANSACTIONS (gateway_serving page_ABC) initial_state (Some ''unconfirmed'')
          (Some address_A) (Some 10) None)
     = Inr ReturnFalse
   \<and> unconfirmedTransactions
        (fst (snd (REST_FETCH_TRANSACTIONS (gateway_serving page_ABC) initial_state
           (Some ''unconfirmed'') (Some address_A) (Some 10) None)))
     = page_ABC
   \<and> map fst (transactionCache
        (fst (snd (REST_FETCH_TRANSACTIONS (gateway_serving page_ABC) initial_state
           (Some ''unconfirmed'') (Some address_A) (Some 10) None))))
     = [''undefined'']
   \<and> fst (REST_FETCH_TRANSACTIONS (gateway_serving page_ABC)
        (fst (snd (REST_FETCH_TRANSACTIONS (gateway_serving page_ABC) initial_state
           (Some ''unconfirmed'') (Some address_A) (Some 10) None)))
        (Some ''unconfirmed'') (Some address_A) (Some 10) None)
     = Inr ReturnFalse
   \<and> snd (snd (REST_FETCH_TRANSACTIONS (gateway_serving page_ABC)
        (fst (snd (REST_FETCH_TRANSACTIONS (gateway_serving page_ABC) initial_state
           (Some ''unconfirmed'') (Some address_A) (Some 10) None)))
        (Some ''unconfirmed'') (Some address_A) (Some 10) None))
     = [CacheLookup ''unconfirmed,TBQXW5MEOD2GYKJ7S4FHV3NPZRUCIA6LTABCDEFG,10,undefined'',
        HttpRequest ''getAccountUnconfirmedTransactions'' address_A (Some 10) None,
        ConsoleError TypeError]"
  by (simp add: fetch_defs store_defs sample_defs page_ABC_def)

end
